theory Spec2Isabelle
  imports Complex_Main "HOL-Library.Word" "HOL-Library.Sublist"
begin

unbundle bit_operations_syntax

section \<open>The notebook \<^verbatim>\<open>SDXL_Turbo_T2B.ipynb\<close>\<close>

text \<open>
  The notebook defines three functions, \<^verbatim>\<open>process_image\<close>,
  \<^verbatim>\<open>create_html_page_with_images\<close> and \<^verbatim>\<open>display_in_browser\<close>, and a main block
  that chains them. Everything they call that is not written in the notebook (the
  diffusion pipeline, the PNG encoder of the image library, the temporary-file facility,
  the browser) is an external collaborator: it is a field of the environment record
  \<open>env\<close>, and the theorems hold for every environment. Effects are explicit: each function
  takes the world and returns its result with the world it leaves behind; an exception
  is the left summand of the result.

  A Python string is a list of characters. The notebook raises nothing itself: the
  exceptions are those of the pipeline, of indexing its empty result, of saving the image,
  of creating the temporary file, of writing and closing it, and of the browser launch.
\<close>

subsection \<open>Errors, environment, world\<close>

type_synonym byte = "8 word"

datatype error =
    GenerationError string  \<comment> \<open>whatever the diffusion pipeline raises\<close>
  | IndexError              \<comment> \<open>\<^verbatim>\<open>.images[0]\<close> on an empty list\<close>
  | OSError string          \<comment> \<open>the image library, the file system or the browser launch\<close>
  | ValueError string       \<comment> \<open>the browser launch, on an argument it cannot pass on\<close>

text \<open>
  \<open>pipeline\<close> is the call \<^verbatim>\<open>pipeline(prompt=, num_inference_steps=, guidance_scale=)\<close>
  followed by \<^verbatim>\<open>.images\<close>: from the state \<open>'g\<close> of the model and of its random number
  generator it gives the list of images, or raises, and the next state.
  \<open>save_png\<close> is what \<^verbatim>\<open>image.save(_, format='PNG')\<close> writes, or what it raises for an
  image it cannot write.
  \<open>named_temporary_file\<close> is \<^verbatim>\<open>tempfile.NamedTemporaryFile(delete=False, suffix=, mode="w")\<close>:
  from the files that exist and the suffix, the name of the file it creates, or an error.
  \<open>write_and_close\<close> is \<^verbatim>\<open>temp_file.write\<close> with the close on leaving the \<^verbatim>\<open>with\<close>
  block: from the files that exist, the name and the text, \<open>None\<close> when all of the text
  reached the file, or the exception raised with the number of characters that did.
  \<open>browser_reply\<close> is what \<^verbatim>\<open>webbrowser.open\<close> does with a URL and a \<^verbatim>\<open>new\<close> argument: the
  boolean it returns, or the exception it raises.
\<close>

record ('g, 'i) env =
  pipeline :: "'g \<Rightarrow> string \<Rightarrow> int \<Rightarrow> real \<Rightarrow> (error + 'i list) \<times> 'g"
  save_png :: "'i \<Rightarrow> error + byte list"
  named_temporary_file :: "(string \<rightharpoonup> string) \<Rightarrow> string \<Rightarrow> error + string"
  write_and_close :: "(string \<rightharpoonup> string) \<Rightarrow> string \<Rightarrow> string \<Rightarrow> (error \<times> nat) option"
  browser_reply :: "string \<Rightarrow> int \<Rightarrow> error + bool"

text \<open>
  The world: the state of the model, the text files on disk (path to content) and the
  requests made to the browser, oldest first, each with its URL and its \<^verbatim>\<open>new\<close> argument.
\<close>

record 'g world =
  model :: 'g
  files :: "string \<rightharpoonup> string"
  opened :: "(string \<times> int) list"

subsection \<open>\<^verbatim>\<open>io.BytesIO\<close>\<close>

record bytes_io =
  buffer :: "byte list"
  pos :: nat

definition BytesIO :: bytes_io where
  "BytesIO = \<lparr>buffer = [], pos = 0\<rparr>"

text \<open>Writing nothing changes nothing. Writing at the position overwrites what is there
  and extends the buffer, padding with zero bytes when the position is past the end.\<close>

definition write_bytes :: "bytes_io \<Rightarrow> byte list \<Rightarrow> bytes_io" where
  "write_bytes io bs =
     (if bs = [] then io
      else \<lparr>buffer = take (pos io) (buffer io) @ replicate (pos io - length (buffer io)) 0 @ bs
                  @ drop (pos io + length bs) (buffer io),
            pos = pos io + length bs\<rparr>)"

definition seek :: "bytes_io \<Rightarrow> nat \<Rightarrow> bytes_io" where
  "seek io n = io\<lparr>pos := n\<rparr>"

definition getvalue :: "bytes_io \<Rightarrow> byte list" where
  "getvalue io = buffer io"

text \<open>\<^verbatim>\<open>image.save(img_buffer, format='PNG')\<close>: the bytes go to the buffer, or the
  exception of the image library goes to the caller.\<close>

definition image_save :: "('g, 'i) env \<Rightarrow> 'i \<Rightarrow> bytes_io \<Rightarrow> error + bytes_io" where
  "image_save ext img io =
     (case save_png ext img of
        Inl e \<Rightarrow> Inl e
      | Inr bs \<Rightarrow> Inr (write_bytes io bs))"

subsection \<open>\<^verbatim>\<open>base64.b64encode\<close>\<close>

text \<open>
  The standard base64 encoding of RFC 4648, as the Python library computes it: three
  bytes give four characters of the alphabet, six bits each, most significant first; a
  last group of one or two bytes is filled with zero bits and padded with \<open>=\<close>. The
  library returns ASCII bytes and the notebook reads them with \<^verbatim>\<open>.decode('utf-8')\<close>,
  which gives the characters of the same codes: the model returns the characters.
\<close>

definition b64_alphabet :: string where
  "b64_alphabet = ''ABCDEFGHIJKLMNOPQRSTUVWXYZabcdefghijklmnopqrstuvwxyz0123456789+/''"

definition b64_char :: "byte \<Rightarrow> char" where
  "b64_char i = b64_alphabet ! unat i"

fun b64encode :: "byte list \<Rightarrow> string" where
  "b64encode (a # b # c # rest) =
     [b64_char (drop_bit 2 a),
      b64_char (push_bit 4 (take_bit 2 a) OR drop_bit 4 b),
      b64_char (push_bit 2 (take_bit 4 b) OR drop_bit 6 c),
      b64_char (take_bit 6 c)] @ b64encode rest"
| "b64encode [a, b] =
     [b64_char (drop_bit 2 a),
      b64_char (push_bit 4 (take_bit 2 a) OR drop_bit 4 b),
      b64_char (push_bit 2 (take_bit 4 b)),
      CHR ''='']"
| "b64encode [a] =
     [b64_char (drop_bit 2 a),
      b64_char (push_bit 4 (take_bit 2 a)),
      CHR ''='', CHR ''='']"
| "b64encode [] = []"

subsection \<open>\<^verbatim>\<open>process_image\<close>\<close>

text \<open>
  \<^verbatim>\<open>
  def process_image(prompt):
      image = pipeline(prompt=prompt, num_inference_steps=1, guidance_scale=0.0).images[0]
      img_buffer = io.BytesIO()
      image.save(img_buffer, format='PNG')
      img_buffer.seek(0)
      data_uri = base64.b64encode(img_buffer.getvalue()).decode('utf-8')
      return f'data:image/png;base64,{data_uri}'
  \<close>
\<close>

definition process_image ::
  "('g, 'i) env \<Rightarrow> string \<Rightarrow> 'g world \<Rightarrow> (error + string) \<times> 'g world" where
  "process_image ext prompt w =
     (case pipeline ext (model w) prompt 1 0 of
        (Inl e, g) \<Rightarrow> (Inl e, w\<lparr>model := g\<rparr>)
      | (Inr [], g) \<Rightarrow> (Inl IndexError, w\<lparr>model := g\<rparr>)
      | (Inr (img # _), g) \<Rightarrow>
          (let img_buffer = BytesIO
           in case image_save ext img img_buffer of
                Inl e \<Rightarrow> (Inl e, w\<lparr>model := g\<rparr>)
              | Inr img_buffer \<Rightarrow>
                  (let img_buffer = seek img_buffer 0;
                       data_uri = b64encode (getvalue img_buffer)
                   in (Inr (''data:image/png;base64,'' @ data_uri), w\<lparr>model := g\<rparr>))))"

subsection \<open>\<^verbatim>\<open>create_html_page_with_images\<close>\<close>

text \<open>The triple-quoted literal the document starts with, line by line.\<close>

definition html_header :: string where
  \<open>html_header =
     ''\<newline>'' @
     ''    <!DOCTYPE html>\<newline>'' @
     ''    <html lang="en">\<newline>'' @
     ''    <head>\<newline>'' @
     ''        <meta charset="UTF-8">\<newline>'' @
     ''        <title>Generated Images Gallery</title>\<newline>'' @
     ''        <style>\<newline>'' @
     ''            body {\<newline>'' @
     ''                margin: 0;\<newline>'' @
     ''                padding: 0;\<newline>'' @
     ''                background-color: #f0f0f0;\<newline>'' @
     ''                font-family: Arial, sans-serif;\<newline>'' @
     ''            }\<newline>'' @
     ''            .gallery {\<newline>'' @
     ''                display: flex;\<newline>'' @
     ''                flex-wrap: wrap;\<newline>'' @
     ''                justify-content: center;\<newline>'' @
     ''                padding: 20px;\<newline>'' @
     ''            }\<newline>'' @
     ''            .gallery img {\<newline>'' @
     ''                margin: 10px;\<newline>'' @
     ''                border: 1px solid #ccc;\<newline>'' @
     ''                border-radius: 5px;\<newline>'' @
     ''                width: auto;\<newline>'' @
     ''                max-width: 300px;\<newline>'' @
     ''                height: auto;\<newline>'' @
     ''            }\<newline>'' @
     ''        </style>\<newline>'' @
     ''    </head>\<newline>'' @
     ''    <body>\<newline>'' @
     ''        <h1 style="text-align: center; margin-top: 20px;">AI Generated Images Gallery</h1>\<newline>'' @
     ''        <div class="gallery">\<newline>'' @
     ''    ''\<close>

definition img_tag :: "string \<Rightarrow> string" where
  \<open>img_tag url = ''<img src="'' @ url @ ''" alt="Generated Image"/>''\<close>

text \<open>
  \<^verbatim>\<open>
      for url in image_urls:
          html_content += f'<img src="{url}" alt="Generated Image"/>'
      html_content += "</div></body></html>"
      with tempfile.NamedTemporaryFile(delete=False, suffix=".html", mode="w",
                                       encoding="utf-8") as temp_file:
          temp_file.write(html_content)
          return temp_file.name
  \<close>
  \<open>html_content\<close> is the value of the variable of that name when the file is written: the
  loop appends one tag for each URL, then the closing tags follow.
  \<^verbatim>\<open>NamedTemporaryFile\<close> creates the file, empty. The text is written and the file closed
  on leaving the \<^verbatim>\<open>with\<close> block, before the name reaches the caller: an exception raised
  there replaces the result, and the file stays with the part of the text that reached it.
\<close>

definition html_content :: "string list \<Rightarrow> string" where
  "html_content image_urls =
     foldl (\<lambda>html url. html @ img_tag url) html_header image_urls @ ''</div></body></html>''"

definition create_html_page_with_images ::
  "('g, 'i) env \<Rightarrow> string list \<Rightarrow> 'g world \<Rightarrow> (error + string) \<times> 'g world" where
  "create_html_page_with_images ext image_urls w =
     (let html = html_content image_urls
      in case named_temporary_file ext (files w) ''.html'' of
           Inl e \<Rightarrow> (Inl e, w)
         | Inr name \<Rightarrow>
             (let w1 = w\<lparr>files := (files w)(name \<mapsto> [])\<rparr>
              in case write_and_close ext (files w1) name html of
                   Some (e, k) \<Rightarrow> (Inl e, w1\<lparr>files := (files w1)(name \<mapsto> take k html)\<rparr>)
                 | None \<Rightarrow> (Inr name, w1\<lparr>files := (files w1)(name \<mapsto> html)\<rparr>)))"

subsection \<open>\<^verbatim>\<open>display_in_browser\<close>\<close>

text \<open>\<^verbatim>\<open>webbrowser.open(url, new)\<close> hands the request to the browser and returns whether
  that worked, or raises what the launch of the browser raises.\<close>

definition webbrowser_open ::
  "('g, 'i) env \<Rightarrow> string \<Rightarrow> int \<Rightarrow> 'g world \<Rightarrow> (error + bool) \<times> 'g world" where
  "webbrowser_open ext url new w =
     (browser_reply ext url new, w\<lparr>opened := opened w @ [(url, new)]\<rparr>)"

text \<open>What the \<^verbatim>\<open>new\<close> argument asks for; any other value is refused by the library.\<close>

datatype target = SameWindow | NewWindow | NewTab

definition target_of_new :: "int \<Rightarrow> target option" where
  "target_of_new new =
     (if new = 0 then Some SameWindow
      else if new = 1 then Some NewWindow
      else if new = 2 then Some NewTab
      else None)"

text \<open>
  \<^verbatim>\<open>
  def display_in_browser(html_file_path):
      webbrowser.open(f'file://{html_file_path}', new=2)
  \<close>
  The function has no \<^verbatim>\<open>return\<close>: the boolean is dropped and the caller gets
  \<^verbatim>\<open>None\<close>, here the unit value. An exception of the library goes to the caller.
\<close>

definition display_in_browser ::
  "('g, 'i) env \<Rightarrow> string \<Rightarrow> 'g world \<Rightarrow> (error + unit) \<times> 'g world" where
  "display_in_browser ext html_file_path w =
     (case webbrowser_open ext (''file://'' @ html_file_path) 2 w of
        (Inl e, w') \<Rightarrow> (Inl e, w')
      | (Inr _, w') \<Rightarrow> (Inr (), w'))"

subsection \<open>The main block\<close>

text \<open>
  \<^verbatim>\<open>
  if __name__ == "__main__":
      prompt = "Create candy land in a handy heaven."
      number_of_images = 3
      image_urls = [process_image(prompt) for _ in range(number_of_images)]
      html_page_path = create_html_page_with_images(image_urls)
      display_in_browser(html_page_path)
  \<close>
  \<open>image_urls_of\<close> is the list comprehension: the calls run in order, and the first
  exception ends it. \<open>main_block\<close> is the block for any prompt and count, \<open>notebook_main\<close>
  the block with its two literals.
\<close>

fun image_urls_of ::
  "('g, 'i) env \<Rightarrow> string \<Rightarrow> nat \<Rightarrow> 'g world \<Rightarrow> (error + string list) \<times> 'g world" where
  "image_urls_of ext prompt 0 w = (Inr [], w)"
| "image_urls_of ext prompt (Suc n) w =
     (case process_image ext prompt w of
        (Inl e, w') \<Rightarrow> (Inl e, w')
      | (Inr url, w') \<Rightarrow>
          (case image_urls_of ext prompt n w' of
             (Inl e, w'') \<Rightarrow> (Inl e, w'')
           | (Inr urls, w'') \<Rightarrow> (Inr (url # urls), w'')))"

text \<open>\<^verbatim>\<open>range(n)\<close> is empty for a negative \<open>n\<close>.\<close>

definition main_block ::
  "('g, 'i) env \<Rightarrow> string \<Rightarrow> int \<Rightarrow> 'g world \<Rightarrow> (error + unit) \<times> 'g world" where
  "main_block ext prompt number_of_images w =
     (case image_urls_of ext prompt (nat number_of_images) w of
        (Inl e, w1) \<Rightarrow> (Inl e, w1)
      | (Inr image_urls, w1) \<Rightarrow>
          (case create_html_page_with_images ext image_urls w1 of
             (Inl e, w2) \<Rightarrow> (Inl e, w2)
           | (Inr html_page_path, w2) \<Rightarrow> display_in_browser ext html_page_path w2))"

definition notebook_main :: "('g, 'i) env \<Rightarrow> 'g world \<Rightarrow> (error + unit) \<times> 'g world" where
  "notebook_main ext w = main_block ext ''Create candy land in a handy heaven.'' 3 w"

subsection \<open>Reading the results back\<close>

text \<open>
  The functions of this subsection are not in the notebook: they are what a reader of
  its output does, and the properties below are stated with them.
  \<open>b64_index\<close> and \<open>b64decode\<close> invert the encoding.
\<close>

definition b64_index :: "char \<Rightarrow> byte option" where
  "b64_index c = map_of (zip b64_alphabet (map of_nat [0..<64])) c"

fun b64decode :: "string \<Rightarrow> byte list option" where
  "b64decode [] = Some []"
| "b64decode (c1 # c2 # c3 # c4 # rest) =
     (case (b64_index c1, b64_index c2) of
        (Some i1, Some i2) \<Rightarrow>
          (if c3 = CHR ''='' \<and> c4 = CHR ''='' \<and> rest = []
           then Some [push_bit 2 i1 OR drop_bit 4 i2]
           else case b64_index c3 of
             None \<Rightarrow> None
           | Some i3 \<Rightarrow>
               (if c4 = CHR ''='' \<and> rest = []
                then Some [push_bit 2 i1 OR drop_bit 4 i2, push_bit 4 i2 OR drop_bit 2 i3]
                else case (b64_index c4, b64decode rest) of
                  (Some i4, Some bs) \<Rightarrow>
                    Some ([push_bit 2 i1 OR drop_bit 4 i2, push_bit 4 i2 OR drop_bit 2 i3,
                           push_bit 6 i3 OR i4] @ bs)
                | _ \<Rightarrow> None))
      | _ \<Rightarrow> None)"
| "b64decode _ = None"

text \<open>A Data URI of the data model: the fixed prefix, then characters of the base64
  alphabet and the padding character only.\<close>

definition data_uri_prefix :: string where
  "data_uri_prefix = ''data:image/png;base64,''"

definition is_b64_char :: "char \<Rightarrow> bool" where
  "is_b64_char c = (c \<in> set b64_alphabet \<or> c = CHR ''='')"

definition is_data_uri :: "string \<Rightarrow> bool" where
  "is_data_uri s =
     (prefix data_uri_prefix s \<and> list_all is_b64_char (drop (length data_uri_prefix) s))"

text \<open>\<open>occurrences pat s\<close> counts the positions of \<open>s\<close> at which \<open>pat\<close> starts.\<close>

fun occurrences :: "string \<Rightarrow> string \<Rightarrow> nat" where
  "occurrences pat [] = 0"
| "occurrences pat (c # cs) = (if prefix pat (c # cs) then 1 else 0) + occurrences pat cs"

text \<open>\<open>img_srcs s\<close> lists, in document order, the value of the \<open>src\<close> attribute of every
  \<open>img\<close> tag of \<open>s\<close>: the text between the opening of the tag and the next double quote.\<close>

definition img_open :: string where
  \<open>img_open = ''<img src="''\<close>

fun img_srcs :: "string \<Rightarrow> string list" where
  "img_srcs [] = []"
| "img_srcs (c # cs) =
     (if prefix img_open (c # cs)
      then takeWhile (\<lambda>x. x \<noteq> CHR 0x22) (drop (length img_open) (c # cs)) # img_srcs cs
      else img_srcs cs)"

definition gallery_open :: string where
  \<open>gallery_open = ''<div class="gallery">''\<close>

text \<open>\<open>clear_of d s\<close>: every \<open><\<close> of \<open>s\<close> is followed, inside \<open>s\<close>, by a character other
  than \<open>d\<close>, so that no tag whose name starts with \<open>d\<close> starts in \<open>s\<close> or across its end.\<close>

fun clear_of :: "char \<Rightarrow> string \<Rightarrow> bool" where
  "clear_of d [] = True"
| "clear_of d [c] = (c \<noteq> CHR ''<'')"
| "clear_of d (c # e # cs) = ((c \<noteq> CHR ''<'' \<or> e \<noteq> d) \<and> clear_of d (e # cs))"

text \<open>What the gallery element holds: the white space that ends the header literal, then
  the tags.\<close>

definition gallery_inner :: "string list \<Rightarrow> string" where
  "gallery_inner image_urls = ''\<newline>    '' @ concat (map img_tag image_urls)"

subsection \<open>A stub environment for concrete runs\<close>

text \<open>
  The model state is a counter and an image is its own PNG bytes. The call made in
  state 1 raises; every other call returns one four-byte image that starts with the
  counter. Two temporary names are available and every write reaches the file. The
  browser launch raises on a URL with a null character, as the launch of a process does,
  and returns \<open>True\<close> otherwise. \<open>full_disk_env\<close> differs in the write: nothing reaches
  the file.
\<close>

definition stub_env :: "(nat, byte list) env" where
  "stub_env =
     \<lparr>pipeline = (\<lambda>g prompt steps scale.
         (if g = 1 then Inl (GenerationError ''out of memory'')
          else Inr [[of_nat g, 80, 78, 71]], Suc g)),
      save_png = (\<lambda>img. Inr img),
      named_temporary_file = (\<lambda>fs suffix.
         if fs (''/tmp/tmpa'' @ suffix) = None then Inr (''/tmp/tmpa'' @ suffix)
         else if fs (''/tmp/tmpb'' @ suffix) = None then Inr (''/tmp/tmpb'' @ suffix)
         else Inl (OSError ''no usable temporary file name'')),
      write_and_close = (\<lambda>fs name text. None),
      browser_reply = (\<lambda>url new.
         if CHR 0x00 \<in> set url then Inl (ValueError ''embedded null byte'') else Inr True)\<rparr>"

definition full_disk_env :: "(nat, byte list) env" where
  "full_disk_env =
     stub_env\<lparr>write_and_close := (\<lambda>fs name text. Some (OSError ''No space left on device'', 0))\<rparr>"

definition stub_world :: "nat \<Rightarrow> nat world" where
  "stub_world g = \<lparr>model = g, files = Map.empty, opened = []\<rparr>"

section \<open>Auxiliary facts\<close>

subsection \<open>The base64 encoding\<close>

text \<open>Every index handed to \<open>b64_char\<close> has six bits.\<close>

lemma unat_lt64: "take_bit 6 (x :: byte) = x \<Longrightarrow> unat x < 64"
proof -
  assume "take_bit 6 x = x"
  then have "unat x = unat (take_bit 6 x)" by simp
  also have "\<dots> = take_bit 6 (unat x)" by (simp add: unsigned_take_bit_eq)
  also have "\<dots> < 2 ^ 6" by (rule take_bit_nat_less_exp)
  finally show ?thesis by simp
qed

lemma six_bits_1: "unat (drop_bit 2 (a :: byte)) < 64"
  by (rule unat_lt64, rule bit_word_eqI) (auto simp: bit_simps dest: bit_imp_le_length)

lemma six_bits_2: "unat (push_bit 4 (take_bit 2 (a :: byte)) OR drop_bit 4 (b :: byte)) < 64"
  by (rule unat_lt64, rule bit_word_eqI) (auto simp: bit_simps dest: bit_imp_le_length)

lemma six_bits_3: "unat (push_bit 2 (take_bit 4 (a :: byte)) OR drop_bit 6 (b :: byte)) < 64"
  by (rule unat_lt64, rule bit_word_eqI) (auto simp: bit_simps dest: bit_imp_le_length)

lemma six_bits_4: "unat (take_bit 6 (a :: byte)) < 64"
  by (rule unat_lt64) simp

lemma six_bits_5: "unat (push_bit 4 (take_bit 2 (a :: byte))) < 64"
  using six_bits_2 [of a 0] by simp

lemma six_bits_6: "unat (push_bit 2 (take_bit 4 (a :: byte))) < 64"
  using six_bits_3 [of a 0] by simp

lemmas six_bits = six_bits_1 six_bits_2 six_bits_3 six_bits_4 six_bits_5 six_bits_6

lemma length_b64_alphabet: "length b64_alphabet = 64"
  by (simp add: b64_alphabet_def)

lemma distinct_b64_alphabet: "distinct b64_alphabet"
  by (simp add: b64_alphabet_def)

lemma b64_char_alphabet: "unat i < 64 \<Longrightarrow> b64_char i \<in> set b64_alphabet"
  by (simp add: b64_char_def length_b64_alphabet)

lemma is_b64_char_b64_char: "unat i < 64 \<Longrightarrow> is_b64_char (b64_char i)"
  by (simp add: is_b64_char_def b64_char_alphabet)

lemma b64encode_alphabet: "list_all is_b64_char (b64encode bs)"
  by (induction bs rule: b64encode.induct)
     (simp_all add: is_b64_char_b64_char six_bits, simp_all add: is_b64_char_def)

lemma is_b64_char_plain:
  "is_b64_char c \<Longrightarrow> c \<noteq> CHR 0x22 \<and> c \<noteq> CHR ''<'' \<and> c \<noteq> CHR ''>''"
  by (auto simp: is_b64_char_def b64_alphabet_def)

lemma is_b64_char_set:
  "is_b64_char c \<Longrightarrow>
   c \<in> set ''ABCDEFGHIJKLMNOPQRSTUVWXYZabcdefghijklmnopqrstuvwxyz0123456789+/=''"
  by (auto simp: is_b64_char_def b64_alphabet_def)

text \<open>Decoding inverts encoding, so the encoding is injective.\<close>

lemma b64_index_b64_char:
  assumes "unat i < 64"
  shows "b64_index (b64_char i) = Some i"
proof -
  have "map_of (zip b64_alphabet (map of_nat [0..<64])) (b64_alphabet ! unat i)
        = Some (map of_nat [0..<64] ! unat i :: byte)"
    using assms by (intro map_of_zip_nth) (simp_all add: length_b64_alphabet distinct_b64_alphabet)
  with assms show ?thesis by (simp add: b64_index_def b64_char_def)
qed

lemma b64_char_not_pad: "unat i < 64 \<Longrightarrow> b64_char i \<noteq> CHR ''=''"
  using b64_char_alphabet [of i] by (auto simp: b64_alphabet_def)

lemma byte_eqI:
  assumes "bit a 0 = bit b 0" "bit a 1 = bit b 1" "bit a 2 = bit b 2" "bit a 3 = bit b 3"
    "bit a 4 = bit b 4" "bit a 5 = bit b 5" "bit a 6 = bit b 6" "bit a 7 = bit b 7"
  shows "(a :: byte) = b"
proof (rule bit_word_eqI)
  fix n assume "n < LENGTH(8)"
  then have "n \<in> {0, 1, 2, 3, 4, 5, 6, 7}" by auto
  with assms show "bit a n = bit b n" by auto
qed

lemma join_1: "push_bit 2 (drop_bit 2 a) OR drop_bit 4 (push_bit 4 (take_bit 2 a)) = (a :: byte)"
  by (rule byte_eqI) (simp_all add: bit_simps)

lemma join_2: "push_bit 4 (drop_bit 4 b) OR drop_bit 2 (push_bit 2 (take_bit 4 b)) = (b :: byte)"
  by (rule byte_eqI) (simp_all add: bit_simps)

lemma join_3: "push_bit 6 (drop_bit 6 c) OR take_bit 6 c = (c :: byte)"
  by (rule byte_eqI) (simp_all add: bit_simps)

lemmas join = join_1 join_2 join_3

lemma b64decode_b64encode: "b64decode (b64encode bs) = Some bs"
proof (induction bs rule: b64encode.induct)
  case (1 a b c rest)
  then show ?case
    by (simp add: b64_index_b64_char b64_char_not_pad six_bits join)
next
  case (2 a b)
  then show ?case
    by (simp add: b64_index_b64_char b64_char_not_pad six_bits join)
next
  case (3 a)
  then show ?case
    by (simp add: b64_index_b64_char b64_char_not_pad six_bits join)
next
  case 4
  then show ?case by simp
qed

lemma b64encode_inj: "b64encode xs = b64encode ys \<Longrightarrow> xs = ys"
  by (metis b64decode_b64encode option.inject)

lemma data_uri_eq_iff:
  "data_uri_prefix @ b64encode xs = data_uri_prefix @ b64encode ys \<longleftrightarrow> xs = ys"
  by (auto dest: b64encode_inj)

subsection \<open>The image producer\<close>

lemma getvalue_saved:
  "image_save ext img BytesIO = Inr io \<longleftrightarrow>
   (\<exists>png. save_png ext img = Inr png \<and> io = write_bytes BytesIO png)"
  and getvalue_written: "getvalue (seek (write_bytes BytesIO png) 0) = png"
  by (auto simp: getvalue_def seek_def image_save_def write_bytes_def BytesIO_def
           split: sum.splits)

lemma process_image_Inr:
  assumes "process_image ext prompt w = (Inr uri, w')"
  shows "\<exists>img imgs g png. pipeline ext (model w) prompt 1 0 = (Inr (img # imgs), g)
           \<and> save_png ext img = Inr png
           \<and> w' = w\<lparr>model := g\<rparr> \<and> uri = data_uri_prefix @ b64encode png"
  using assms
  by (auto simp: process_image_def getvalue_saved getvalue_written data_uri_prefix_def Let_def
           split: prod.splits sum.splits list.splits)

lemma process_image_world:
  assumes "process_image ext prompt w = (r, w')"
  shows "files w' = files w \<and> opened w' = opened w"
  using assms
  by (auto simp: process_image_def Let_def split: prod.splits sum.splits list.splits)

lemma is_data_uri_encoded: "is_data_uri (data_uri_prefix @ b64encode bs)"
  by (simp add: is_data_uri_def b64encode_alphabet)

lemma is_data_uri_plain:
  assumes "is_data_uri s"
  shows "CHR 0x22 \<notin> set s \<and> CHR ''<'' \<notin> set s \<and> CHR ''>'' \<notin> set s"
proof -
  from assms obtain t where s: "s = data_uri_prefix @ t" and t: "list_all is_b64_char t"
    by (auto simp: is_data_uri_def prefix_def)
  from t have "\<forall>c \<in> set t. c \<noteq> CHR 0x22 \<and> c \<noteq> CHR ''<'' \<and> c \<noteq> CHR ''>''"
    by (auto simp: list_all_iff dest: is_b64_char_plain)
  then show ?thesis
    unfolding s by (auto simp: data_uri_prefix_def)
qed

lemma data_uris_plain:
  "list_all is_data_uri us \<Longrightarrow> \<forall>u \<in> set us. CHR ''<'' \<notin> set u \<and> CHR 0x22 \<notin> set u"
  by (auto simp: list_all_iff dest: is_data_uri_plain)

lemma stub_first:
  "process_image stub_env p (stub_world 0) = (Inr ''data:image/png;base64,AFBORw=='', stub_world 1)"
  by (simp add: process_image_def stub_env_def stub_world_def getvalue_def seek_def
        image_save_def write_bytes_def BytesIO_def b64_char_def b64_alphabet_def)

lemma stub_second:
  "process_image stub_env p (stub_world 1) = (Inl (GenerationError ''out of memory''), stub_world 2)"
  by (simp add: process_image_def stub_env_def stub_world_def)

subsection \<open>The gallery document\<close>

lemma clear_of_no_lt: "CHR ''<'' \<notin> set xs \<Longrightarrow> clear_of d xs"
  by (induction d xs rule: clear_of.induct) auto

lemma clear_of_append: "clear_of d xs \<Longrightarrow> clear_of d ys \<Longrightarrow> clear_of d (xs @ ys)"
proof (induction d xs rule: clear_of.induct)
  case (2 d c)
  then show ?case by (cases ys) auto
qed auto

lemma occurrences_clear:
  "clear_of d xs \<Longrightarrow>
   occurrences (CHR ''<'' # d # p) (xs @ ys) = occurrences (CHR ''<'' # d # p) ys"
  by (induction d xs rule: clear_of.induct) auto

lemma occurrences_none: "clear_of d xs \<Longrightarrow> occurrences (CHR ''<'' # d # p) xs = 0"
  using occurrences_clear [of d xs p "[]"] by (simp only: append_Nil2 occurrences.simps(1))

lemma img_srcs_clear: "clear_of (CHR ''i'') xs \<Longrightarrow> img_srcs (xs @ ys) = img_srcs ys"
  by (induction "CHR ''i''" xs rule: clear_of.induct) (auto simp: img_open_def)

lemma img_srcs_none: "clear_of (CHR ''i'') xs \<Longrightarrow> img_srcs xs = []"
  using img_srcs_clear [of xs "[]"] by (simp only: append_Nil2 img_srcs.simps(1))

lemma foldl_tags: "foldl (\<lambda>html url. html @ img_tag url) a us = a @ concat (map img_tag us)"
  by (induction us arbitrary: a) auto

lemma html_content_eq:
  "html_content us = html_header @ concat (map img_tag us) @ ''</div></body></html>''"
  by (simp add: html_content_def foldl_tags)

lemma html_header_split:
  "html_header = take 879 html_header @ gallery_open @ ''\<newline>    ''"
  by (simp add: html_header_def gallery_open_def)

lemma html_head_clear: "clear_of d (take 879 html_header)"
  if "d = CHR ''i'' \<or> d = CHR ''d''"
  using that by (auto simp: html_header_def)

lemma html_header_clear_i: "clear_of (CHR ''i'') html_header"
  by (simp add: html_header_def)

lemma html_content_split:
  "html_content us
   = take 879 html_header @ gallery_open @ gallery_inner us @ ''</div>'' @ ''</body></html>''"
proof -
  have "html_content us = (take 879 html_header @ gallery_open @ ''\<newline>    '')
          @ concat (map img_tag us) @ ''</div></body></html>''"
    by (simp only: html_content_eq html_header_split [symmetric])
  then show ?thesis by (simp add: gallery_inner_def)
qed

lemma img_tag_Cons:
  "img_tag u = CHR ''<'' # CHR ''i'' # ''mg src='' @ [CHR 0x22] @ u @ [CHR 0x22] @ '' alt=''
     @ [CHR 0x22] @ ''Generated Image'' @ [CHR 0x22] @ ''/>''"
  by (simp add: img_tag_def)

lemma clear_img_tag:
  assumes "CHR ''<'' \<notin> set u" and "d \<noteq> CHR ''i''"
  shows "clear_of d (img_tag u)"
proof -
  have "clear_of d (CHR ''i'' # ''mg src='' @ [CHR 0x22] @ u @ [CHR 0x22] @ '' alt=''
     @ [CHR 0x22] @ ''Generated Image'' @ [CHR 0x22] @ ''/>'')"
    using assms(1) by (intro clear_of_no_lt) simp
  with assms(2) show ?thesis
    by (simp only: img_tag_Cons clear_of.simps) simp
qed

lemma clear_img_tags:
  assumes "\<forall>u \<in> set us. CHR ''<'' \<notin> set u" and "d \<noteq> CHR ''i''"
  shows "clear_of d (concat (map img_tag us))"
  using assms by (induction us) (simp_all add: clear_of_append clear_img_tag)

lemma gallery_inner_clear:
  assumes "\<forall>u \<in> set us. CHR ''<'' \<notin> set u" and "d \<noteq> CHR ''i''"
  shows "clear_of d (gallery_inner us)"
  unfolding gallery_inner_def
  by (intro clear_of_append clear_img_tags assms clear_of_no_lt) simp

lemma img_srcs_tag:
  assumes "CHR ''<'' \<notin> set u" and "CHR 0x22 \<notin> set u"
  shows "img_srcs (img_tag u @ ys) = u # img_srcs ys"
proof -
  let ?inner = "''img src='' @ [CHR 0x22] @ u @ [CHR 0x22] @ '' alt='' @ [CHR 0x22]
                @ ''Generated Image'' @ [CHR 0x22] @ ''/>''"
  have tw: "takeWhile (\<lambda>x. x \<noteq> CHR 0x22) (u @ CHR 0x22 # zs) = u" for zs
    using assms(2) by (induction u) auto
  have cl: "clear_of (CHR ''i'') ?inner"
    using assms(1) by (intro clear_of_no_lt) simp
  have "img_srcs (img_tag u @ ys)
        = takeWhile (\<lambda>x. x \<noteq> CHR 0x22)
            (u @ CHR 0x22 # ('' alt='' @ [CHR 0x22] @ ''Generated Image'' @ [CHR 0x22] @ ''/>'' @ ys))
          # img_srcs (?inner @ ys)"
    by (simp add: img_tag_def img_open_def)
  then show ?thesis
    by (simp only: tw img_srcs_clear [OF cl])
qed

lemma img_srcs_tags:
  "\<forall>u \<in> set us. CHR ''<'' \<notin> set u \<and> CHR 0x22 \<notin> set u \<Longrightarrow>
   img_srcs (concat (map img_tag us) @ ys) = us @ img_srcs ys"
  by (induction us) (simp_all add: img_srcs_tag)

lemma occurrences_img_tag:
  assumes "CHR ''<'' \<notin> set u"
  shows "occurrences ''<img'' (img_tag u @ ys) = Suc (occurrences ''<img'' ys)"
proof -
  let ?inner = "''img src='' @ [CHR 0x22] @ u @ [CHR 0x22] @ '' alt='' @ [CHR 0x22]
                @ ''Generated Image'' @ [CHR 0x22] @ ''/>''"
  have cl: "clear_of (CHR ''i'') ?inner"
    using assms by (intro clear_of_no_lt) simp
  have "occurrences ''<img'' (img_tag u @ ys) = Suc (occurrences ''<img'' (?inner @ ys))"
    by (simp add: img_tag_def)
  then show ?thesis
    by (simp only: occurrences_clear [OF cl])
qed

lemma occurrences_img_tags:
  "\<forall>u \<in> set us. CHR ''<'' \<notin> set u \<Longrightarrow>
   occurrences ''<img'' (concat (map img_tag us) @ ys) = length us + occurrences ''<img'' ys"
  by (induction us) (simp_all add: occurrences_img_tag)

lemma img_srcs_html_content:
  assumes "\<forall>u \<in> set us. CHR ''<'' \<notin> set u \<and> CHR 0x22 \<notin> set u"
  shows "img_srcs (html_content us) = us"
proof -
  have "img_srcs ''</div></body></html>'' = []"
    by (rule img_srcs_none) simp
  with assms show ?thesis
    by (simp only: html_content_eq img_srcs_clear [OF html_header_clear_i] img_srcs_tags
          append_Nil2)
qed

lemma occurrences_img_html_content:
  assumes "\<forall>u \<in> set us. CHR ''<'' \<notin> set u"
  shows "occurrences ''<img'' (html_content us) = length us"
proof -
  have "occurrences ''<img'' ''</div></body></html>'' = 0"
    by (rule occurrences_none) simp
  with assms show ?thesis
    by (simp only: html_content_eq occurrences_clear [OF html_header_clear_i]
          occurrences_img_tags add_0_right)
qed

lemma occurrences_gallery_open:
  assumes "\<forall>u \<in> set us. CHR ''<'' \<notin> set u"
  shows "occurrences gallery_open (html_content us) = 1"
proof -
  let ?tail = "gallery_inner us @ ''</div>'' @ ''</body></html>''"
  let ?p = "''iv class='' @ [CHR 0x22] @ ''gallery'' @ [CHR 0x22] @ ''>''"
  have go: "gallery_open = CHR ''<'' # CHR ''d'' # ?p"
    by (simp add: gallery_open_def)
  have head: "clear_of (CHR ''d'') (take 879 html_header)"
    by (rule html_head_clear) simp
  have "clear_of (CHR ''d'') (CHR ''d'' # ?p)"
    by (intro clear_of_no_lt) simp
  moreover have "clear_of (CHR ''d'') ?tail"
    by (intro clear_of_append gallery_inner_clear assms) simp_all
  ultimately have rest: "clear_of (CHR ''d'') ((CHR ''d'' # ?p) @ ?tail)"
    by (rule clear_of_append)
  have "occurrences gallery_open (html_content us)
        = occurrences (CHR ''<'' # CHR ''d'' # ?p) ((CHR ''<'' # CHR ''d'' # ?p) @ ?tail)"
    by (simp only: html_content_split go occurrences_clear [OF head])
  also have "\<dots> = Suc (occurrences (CHR ''<'' # CHR ''d'' # ?p) ((CHR ''d'' # ?p) @ ?tail))"
    by simp
  also have "\<dots> = 1"
    by (simp only: occurrences_none [OF rest] One_nat_def)
  finally show ?thesis .
qed

lemma count_list_img_tag:
  "count_list (img_tag u) c
   = count_list u c + count_list (''<img src='' @ [CHR 0x22, CHR 0x22] @ '' alt=''
       @ [CHR 0x22] @ ''Generated Image'' @ [CHR 0x22] @ ''/>'') c"
  by (simp add: img_tag_def)

lemma create_html_page_Inr:
  assumes "create_html_page_with_images ext urls w = (Inr path, w')"
  shows "named_temporary_file ext (files w) ''.html'' = Inr path
         \<and> write_and_close ext ((files w)(path \<mapsto> [])) path (html_content urls) = None
         \<and> w' = w\<lparr>files := (files w)(path \<mapsto> html_content urls)\<rparr>"
  using assms
  by (auto simp: create_html_page_with_images_def Let_def split: sum.splits option.splits)

subsection \<open>The comprehension and the browser launcher\<close>

lemma image_urls_of_Suc_Inr:
  "image_urls_of ext prompt (Suc n) w = (Inr urls, w') \<longleftrightarrow>
   (\<exists>u us w1. process_image ext prompt w = (Inr u, w1)
      \<and> image_urls_of ext prompt n w1 = (Inr us, w') \<and> urls = u # us)"
  by (auto split: prod.splits sum.splits)

lemma image_urls_of_world:
  "image_urls_of ext prompt n w = (r, w') \<Longrightarrow> files w' = files w \<and> opened w' = opened w"
proof (induction n arbitrary: w r w')
  case 0
  then show ?case by simp
next
  case (Suc n)
  obtain r1 w1 where p: "process_image ext prompt w = (r1, w1)" by (cases "process_image ext prompt w")
  note pw = process_image_world [OF p]
  show ?case
  proof (cases r1)
    case (Inl e)
    with Suc.prems p pw show ?thesis by simp
  next
    case (Inr u)
    obtain r2 w2 where q: "image_urls_of ext prompt n w1 = (r2, w2)"
      by (cases "image_urls_of ext prompt n w1")
    from Suc.IH [OF q] pw have "files w2 = files w \<and> opened w2 = opened w" by simp
    with Suc.prems p q Inr show ?thesis by (cases r2) auto
  qed
qed

lemma image_urls_of_Inr:
  "image_urls_of ext prompt n w = (Inr urls, w') \<Longrightarrow>
   length urls = n \<and> list_all is_data_uri urls"
proof (induction n arbitrary: w urls)
  case 0
  then show ?case by simp
next
  case (Suc n)
  then obtain u us w1 where p: "process_image ext prompt w = (Inr u, w1)"
    and q: "image_urls_of ext prompt n w1 = (Inr us, w')" and urls: "urls = u # us"
    by (auto simp only: image_urls_of_Suc_Inr)
  from process_image_Inr [OF p] have "is_data_uri u" by (auto simp: is_data_uri_encoded)
  with Suc.IH [OF q] urls show ?case by simp
qed

lemma image_urls_of_nth:
  "image_urls_of ext prompt n w = (Inr urls, w') \<Longrightarrow> i < n \<Longrightarrow>
   \<exists>wi wi'. image_urls_of ext prompt i w = (Inr (take i urls), wi)
     \<and> process_image ext prompt wi = (Inr (urls ! i), wi')"
proof (induction n arbitrary: w urls i)
  case 0
  then show ?case by simp
next
  case (Suc n)
  then obtain u us w1 where p: "process_image ext prompt w = (Inr u, w1)"
    and q: "image_urls_of ext prompt n w1 = (Inr us, w')" and urls: "urls = u # us"
    by (auto simp only: image_urls_of_Suc_Inr)
  show ?case
  proof (cases i)
    case 0
    with p urls show ?thesis by simp
  next
    case (Suc j)
    with Suc.prems have "j < n" by simp
    from Suc.IH [OF q this] obtain wj wj' where
      "image_urls_of ext prompt j w1 = (Inr (take j us), wj)"
      "process_image ext prompt wj = (Inr (us ! j), wj')" by blast
    with p urls Suc show ?thesis by simp
  qed
qed

lemma image_urls_of_fail:
  "k < n \<Longrightarrow> image_urls_of ext prompt k w = (Inr urls, wk) \<Longrightarrow>
   process_image ext prompt wk = (Inl e, wk') \<Longrightarrow>
   image_urls_of ext prompt n w = (Inl e, wk')"
proof (induction k arbitrary: n w urls)
  case 0
  then obtain m where "n = Suc m" by (cases n) auto
  with 0 show ?case by simp
next
  case (Suc k)
  from Suc.prems(1) obtain m where n: "n = Suc m" and km: "k < m" by (cases n) auto
  from Suc.prems(2) obtain u us w1 where p: "process_image ext prompt w = (Inr u, w1)"
    and q: "image_urls_of ext prompt k w1 = (Inr us, wk)"
    by (auto simp only: image_urls_of_Suc_Inr)
  from Suc.IH [OF km q Suc.prems(3)] p n show ?case by simp
qed

lemma display_in_browser_world:
  "snd (display_in_browser ext p w) = w\<lparr>opened := opened w @ [(''file://'' @ p, 2)]\<rparr>"
  by (simp add: display_in_browser_def webbrowser_open_def split: sum.splits)

lemma display_in_browser_result:
  "fst (display_in_browser ext p w)
   = (case browser_reply ext (''file://'' @ p) 2 of Inl e \<Rightarrow> Inl e | Inr b \<Rightarrow> Inr ())"
  by (simp add: display_in_browser_def webbrowser_open_def split: sum.splits)

text \<open>The main block ends without an exception exactly when every call of
  \<^verbatim>\<open>process_image\<close> returns, the temporary file is created, the document reaches it and
  the browser launch returns.\<close>

lemma main_block_Inr_iff:
  "main_block ext prompt n w = (Inr (), w') \<longleftrightarrow>
   (\<exists>urls w1 path b.
      image_urls_of ext prompt (nat n) w = (Inr urls, w1)
    \<and> named_temporary_file ext (files w) ''.html'' = Inr path
    \<and> write_and_close ext ((files w)(path \<mapsto> [])) path (html_content urls) = None
    \<and> browser_reply ext (''file://'' @ path) 2 = Inr b
    \<and> w' = w1\<lparr>files := (files w)(path \<mapsto> html_content urls),
               opened := opened w @ [(''file://'' @ path, 2)]\<rparr>)"
  (is "?run \<longleftrightarrow> ?parts")
proof
  assume ?run
  then obtain urls w1 path w2 where
    g: "image_urls_of ext prompt (nat n) w = (Inr urls, w1)"
    and c: "create_html_page_with_images ext urls w1 = (Inr path, w2)"
    and d: "display_in_browser ext path w2 = (Inr (), w')"
    by (auto simp: main_block_def split: prod.splits sum.splits)
  from d have "fst (display_in_browser ext path w2) = Inr ()"
    and w': "w' = snd (display_in_browser ext path w2)" by simp_all
  then obtain b where b: "browser_reply ext (''file://'' @ path) 2 = Inr b"
    by (auto simp: display_in_browser_result split: sum.splits)
  from image_urls_of_world [OF g] create_html_page_Inr [OF c] w'
  have "named_temporary_file ext (files w) ''.html'' = Inr path"
    and "write_and_close ext ((files w)(path \<mapsto> [])) path (html_content urls) = None"
    and "w' = w1\<lparr>files := (files w)(path \<mapsto> html_content urls),
                  opened := opened w @ [(''file://'' @ path, 2)]\<rparr>"
    by (simp_all add: display_in_browser_world)
  with g b show ?parts by blast
next
  assume ?parts
  then obtain urls w1 path b where
    g: "image_urls_of ext prompt (nat n) w = (Inr urls, w1)"
    and t: "named_temporary_file ext (files w) ''.html'' = Inr path"
    and wr: "write_and_close ext ((files w)(path \<mapsto> [])) path (html_content urls) = None"
    and b: "browser_reply ext (''file://'' @ path) 2 = Inr b"
    and w': "w' = w1\<lparr>files := (files w)(path \<mapsto> html_content urls),
                     opened := opened w @ [(''file://'' @ path, 2)]\<rparr>"
    by blast
  from image_urls_of_world [OF g] have "files w1 = files w" "opened w1 = opened w"
    by simp_all
  with g t wr b w' show ?run
    by (simp add: main_block_def create_html_page_with_images_def display_in_browser_def
          webbrowser_open_def)
qed

section \<open>The claims\<close>

text \<open>
  C1. For every prompt and every image count \<open>n \<ge> 0\<close>, a run of the main block that
  ends without an exception has produced exactly \<open>n\<close> Data URIs, the \<open>i\<close>-th of them
  returned by the \<open>i\<close>-th call of \<^verbatim>\<open>process_image\<close>; the file that
  \<^verbatim>\<open>create_html_page_with_images\<close> wrote holds the gallery document of these URIs, which
  has exactly \<open>n\<close> \<open>img\<close> tags, and the \<open>src\<close> attributes read off the document are the
  URIs in the order of their generation.
\<close>

theorem main_block_gallery:
  assumes "0 \<le> n" and "main_block ext prompt n w = (Inr (), w')"
  shows "\<exists>urls w1 path.
           image_urls_of ext prompt (nat n) w = (Inr urls, w1)
         \<and> int (length urls) = n
         \<and> (\<forall>i < length urls. \<exists>wi wi'.
               image_urls_of ext prompt i w = (Inr (take i urls), wi)
             \<and> process_image ext prompt wi = (Inr (urls ! i), wi'))
         \<and> create_html_page_with_images ext urls w1
             = (Inr path, w1\<lparr>files := (files w1)(path \<mapsto> html_content urls)\<rparr>)
         \<and> files w' path = Some (html_content urls)
         \<and> int (occurrences ''<img'' (html_content urls)) = n
         \<and> img_srcs (html_content urls) = urls"
proof -
  from assms(2) obtain urls w1 path w2 where
    g: "image_urls_of ext prompt (nat n) w = (Inr urls, w1)"
    and c: "create_html_page_with_images ext urls w1 = (Inr path, w2)"
    and d: "display_in_browser ext path w2 = (Inr (), w')"
    by (auto simp: main_block_def split: prod.splits sum.splits)
  from image_urls_of_Inr [OF g] have len: "length urls = nat n" and uris: "list_all is_data_uri urls"
    by simp_all
  note plain = data_uris_plain [OF uris]
  from create_html_page_Inr [OF c]
  have w2: "w2 = w1\<lparr>files := (files w1)(path \<mapsto> html_content urls)\<rparr>" by simp
  from d have "w' = snd (display_in_browser ext path w2)" by simp
  then have w': "w' = w2\<lparr>opened := opened w2 @ [(''file://'' @ path, 2)]\<rparr>"
    by (simp only: display_in_browser_world)
  have nth: "\<forall>i < length urls. \<exists>wi wi'.
               image_urls_of ext prompt i w = (Inr (take i urls), wi)
             \<and> process_image ext prompt wi = (Inr (urls ! i), wi')"
    using image_urls_of_nth [OF g] len by simp
  have fl: "files w' path = Some (html_content urls)"
    by (simp add: w' w2)
  have cnt: "int (occurrences ''<img'' (html_content urls)) = n"
    using plain assms(1) len by (simp add: occurrences_img_html_content)
  have srcs: "img_srcs (html_content urls) = urls"
    using plain by (rule img_srcs_html_content)
  from g len assms(1) nth c w2 fl cnt srcs show ?thesis
    by (intro exI [of _ urls] exI [of _ w1] exI [of _ path]) simp
qed

theorem main_block_gallery_witness:
  "(0::int) \<le> 3
   \<and> fst (notebook_main stub_env (stub_world 2)) = Inr ()
   \<and> fst (image_urls_of stub_env ''Create candy land in a handy heaven.'' 3 (stub_world 2))
       = Inr [''data:image/png;base64,AlBORw=='', ''data:image/png;base64,A1BORw=='',
              ''data:image/png;base64,BFBORw=='']
   \<and> occurrences ''<img'' (html_content [''data:image/png;base64,AlBORw=='',
         ''data:image/png;base64,A1BORw=='', ''data:image/png;base64,BFBORw=='']) = 3
   \<and> img_srcs (html_content [''data:image/png;base64,AlBORw=='',
         ''data:image/png;base64,A1BORw=='', ''data:image/png;base64,BFBORw==''])
       = [''data:image/png;base64,AlBORw=='', ''data:image/png;base64,A1BORw=='',
          ''data:image/png;base64,BFBORw=='']"
proof -
  let ?p = "''Create candy land in a handy heaven.''"
  have r: "fst (main_block stub_env ?p 3 (stub_world 2)) = Inr ()"
    by code_simp
  then have h: "main_block stub_env ?p 3 (stub_world 2)
                = (Inr (), snd (main_block stub_env ?p 3 (stub_world 2)))"
    by (simp add: prod_eq_iff)
  have u: "fst (image_urls_of stub_env ?p 3 (stub_world 2))
           = Inr [''data:image/png;base64,AlBORw=='', ''data:image/png;base64,A1BORw=='',
                  ''data:image/png;base64,BFBORw=='']"
    by code_simp
  from main_block_gallery [OF _ h] r u show ?thesis
    by (auto simp: notebook_main_def)
qed

text \<open>
  C2. If the first \<open>k\<close> calls of \<^verbatim>\<open>process_image\<close> succeed and call \<open>k + 1\<close> raises,
  with \<open>k\<close> below the image count, then the main block ends with that exception in the
  world the failing call left: the URIs of the earlier images are not part of the
  result, no file has been written and no request has been made to the browser.
\<close>

theorem main_block_generation_failure:
  assumes "k < nat n"
    and "image_urls_of ext prompt k w = (Inr urls, wk)"
    and "process_image ext prompt wk = (Inl e, wk')"
  shows "main_block ext prompt n w = (Inl e, wk') \<and> files wk' = files w \<and> opened wk' = opened w"
proof -
  from image_urls_of_fail [OF assms]
  have f: "image_urls_of ext prompt (nat n) w = (Inl e, wk')" .
  then have "main_block ext prompt n w = (Inl e, wk')"
    by (simp add: main_block_def)
  with image_urls_of_world [OF f] show ?thesis by simp
qed

theorem main_block_generation_failure_witness:
  "(1::nat) < nat 3
   \<and> image_urls_of stub_env ''Create candy land in a handy heaven.'' 1 (stub_world 0)
       = (Inr [''data:image/png;base64,AFBORw==''], stub_world 1)
   \<and> process_image stub_env ''Create candy land in a handy heaven.'' (stub_world 1)
       = (Inl (GenerationError ''out of memory''), stub_world 2)
   \<and> notebook_main stub_env (stub_world 0)
       = (Inl (GenerationError ''out of memory''), stub_world 2)
   \<and> files (stub_world 2) = files (stub_world 0)
   \<and> opened (stub_world 2) = opened (stub_world 0)"
proof -
  let ?p = "''Create candy land in a handy heaven.''"
  have k: "(1::nat) < nat 3" by simp
  have a: "image_urls_of stub_env ?p 1 (stub_world 0)
           = (Inr [''data:image/png;base64,AFBORw==''], stub_world 1)"
    by (simp add: stub_first)
  have b: "process_image stub_env ?p (stub_world 1)
           = (Inl (GenerationError ''out of memory''), stub_world 2)"
    by (rule stub_second)
  from main_block_generation_failure [OF k a b] k a b show ?thesis
    by (simp add: notebook_main_def)
qed

text \<open>
  C3. Every string \<^verbatim>\<open>process_image\<close> returns is made from the first image the pipeline
  gave for the prompt, with one inference step and guidance scale 0: the string is the
  prefix \<^verbatim>\<open>data:image/png;base64,\<close> followed by the base64 encoding of the PNG bytes
  the image library wrote for that image, so that decoding what follows the prefix gives
  the PNG bytes back.
\<close>

theorem process_image_data_uri:
  assumes "process_image ext prompt w = (Inr uri, w')"
  shows "\<exists>img imgs g png. pipeline ext (model w) prompt 1 0 = (Inr (img # imgs), g)
           \<and> save_png ext img = Inr png
           \<and> uri = ''data:image/png;base64,'' @ b64encode png
           \<and> prefix ''data:image/png;base64,'' uri
           \<and> b64decode (drop 22 uri) = Some png"
proof -
  from process_image_Inr [OF assms] obtain img imgs g png where
    p: "pipeline ext (model w) prompt 1 0 = (Inr (img # imgs), g)"
    and s: "save_png ext img = Inr png"
    and u: "uri = data_uri_prefix @ b64encode png" by blast
  from u have "b64decode (drop 22 uri) = Some png"
    by (simp add: data_uri_prefix_def b64decode_b64encode)
  with p s u show ?thesis
    by (auto simp: data_uri_prefix_def)
qed

theorem process_image_data_uri_witness:
  "process_image stub_env ''Create candy land in a handy heaven.'' (stub_world 0)
     = (Inr ''data:image/png;base64,AFBORw=='', stub_world 1)
   \<and> prefix ''data:image/png;base64,'' ''data:image/png;base64,AFBORw==''
   \<and> b64decode (drop 22 ''data:image/png;base64,AFBORw=='') = Some [0, 80, 78, 71]"
proof -
  let ?p = "''Create candy land in a handy heaven.''"
  have h: "process_image stub_env ?p (stub_world 0)
           = (Inr ''data:image/png;base64,AFBORw=='', stub_world 1)"
    by (rule stub_first)
  have p: "pipeline stub_env (model (stub_world 0)) ?p 1 0 = (Inr [[0, 80, 78, 71]], 1)"
    by (simp add: stub_env_def stub_world_def)
  have s: "save_png stub_env img = Inr img" for img
    by (simp add: stub_env_def)
  from process_image_data_uri [OF h] obtain img imgs g png where
    "pipeline stub_env (model (stub_world 0)) ?p 1 0 = (Inr (img # imgs), g)"
    and sv: "save_png stub_env img = Inr png"
    and pre: "prefix ''data:image/png;base64,'' ''data:image/png;base64,AFBORw==''"
    and dec: "b64decode (drop 22 ''data:image/png;base64,AFBORw=='') = Some png"
    by blast
  with p have "img = [0, 80, 78, 71]" by simp
  with sv have "png = [0, 80, 78, 71]" by (simp add: s)
  with dec have "b64decode (drop 22 ''data:image/png;base64,AFBORw=='') = Some [0, 80, 78, 71]"
    by (simp only:)
  with h pre show ?thesis by blast
qed

text \<open>
  C4. The content \<^verbatim>\<open>create_html_page_with_images\<close> writes depends on the list of URIs
  only: two invocations on the same list, in any two worlds and with any two
  environments, write the same document, the one \<open>html_content\<close> gives; only the paths
  they return may differ.
\<close>

theorem create_html_page_deterministic:
  assumes "create_html_page_with_images ext1 image_urls w1 = (Inr p1, w1')"
    and "create_html_page_with_images ext2 image_urls w2 = (Inr p2, w2')"
  shows "files w1' p1 = Some (html_content image_urls) \<and> files w2' p2 = files w1' p1"
  using create_html_page_Inr [OF assms(1)] create_html_page_Inr [OF assms(2)] by simp

theorem create_html_page_deterministic_witness:
  "create_html_page_with_images stub_env [''data:image/png;base64,AFBORw==''] (stub_world 0)
     = (Inr ''/tmp/tmpa.html'',
        (stub_world 0)\<lparr>files := [''/tmp/tmpa.html''
           \<mapsto> html_content [''data:image/png;base64,AFBORw=='']]\<rparr>)
   \<and> create_html_page_with_images stub_env [''data:image/png;base64,AFBORw=='']
        ((stub_world 0)\<lparr>files := [''/tmp/tmpa.html''
           \<mapsto> html_content [''data:image/png;base64,AFBORw=='']]\<rparr>)
     = (Inr ''/tmp/tmpb.html'',
        (stub_world 0)\<lparr>files := [''/tmp/tmpa.html''
           \<mapsto> html_content [''data:image/png;base64,AFBORw==''],
           ''/tmp/tmpb.html'' \<mapsto> html_content [''data:image/png;base64,AFBORw=='']]\<rparr>)
   \<and> [''/tmp/tmpa.html'' \<mapsto> html_content [''data:image/png;base64,AFBORw==''],
        ''/tmp/tmpb.html'' \<mapsto> html_content [''data:image/png;base64,AFBORw=='']]
         ''/tmp/tmpb.html''
       = [''/tmp/tmpa.html'' \<mapsto> html_content [''data:image/png;base64,AFBORw=='']]
         ''/tmp/tmpa.html''"
proof -
  let ?d = "html_content [''data:image/png;base64,AFBORw=='']"
  let ?wa = "(stub_world 0)\<lparr>files := [''/tmp/tmpa.html'' \<mapsto> ?d]\<rparr>"
  let ?wb = "(stub_world 0)\<lparr>files := [''/tmp/tmpa.html'' \<mapsto> ?d, ''/tmp/tmpb.html'' \<mapsto> ?d]\<rparr>"
  have a: "create_html_page_with_images stub_env [''data:image/png;base64,AFBORw==''] (stub_world 0)
           = (Inr ''/tmp/tmpa.html'', ?wa)"
    by (simp add: create_html_page_with_images_def stub_env_def stub_world_def)
  have b: "create_html_page_with_images stub_env [''data:image/png;base64,AFBORw==''] ?wa
           = (Inr ''/tmp/tmpb.html'', ?wb)"
    by (simp add: create_html_page_with_images_def stub_env_def stub_world_def)
  from create_html_page_deterministic [OF a b] a b show ?thesis
    by simp
qed

text \<open>
  C5. For every list of Data URIs, the empty list included, the document has exactly
  one opening tag of the gallery element; the document is the head, that tag, the
  content of the element, its closing tag and the closing tags of the page; the content
  has no closing tag of a \<open>div\<close> in it, it has one \<open>img\<close> tag for each URI and the document
  has no other, and the \<open>src\<close> attributes read off the content are the URIs of the input,
  character for character and in order.
\<close>

theorem gallery_document_structure:
  assumes "list_all is_data_uri image_urls"
  shows "occurrences gallery_open (html_content image_urls) = 1
       \<and> html_content image_urls
           = take 879 html_header @ gallery_open @ gallery_inner image_urls
             @ ''</div>'' @ ''</body></html>''
       \<and> occurrences ''</div>'' (gallery_inner image_urls) = 0
       \<and> occurrences ''<img'' (gallery_inner image_urls) = length image_urls
       \<and> occurrences ''<img'' (html_content image_urls) = length image_urls
       \<and> img_srcs (gallery_inner image_urls) = image_urls
       \<and> list_all is_data_uri (img_srcs (gallery_inner image_urls))"
proof -
  note plain = data_uris_plain [OF assms]
  then have lt: "\<forall>u \<in> set image_urls. CHR ''<'' \<notin> set u" by simp
  have "occurrences ''</div>'' (gallery_inner image_urls) = 0"
    by (intro occurrences_none gallery_inner_clear lt) simp
  moreover have "occurrences ''<img'' (gallery_inner image_urls) = length image_urls"
    using occurrences_img_tags [OF lt, of "[]"] by (simp add: gallery_inner_def)
  moreover have "img_srcs (gallery_inner image_urls) = image_urls"
    using img_srcs_tags [OF plain, of "[]"] by (simp add: gallery_inner_def img_open_def)
  ultimately show ?thesis
    using assms occurrences_gallery_open [OF lt] occurrences_img_html_content [OF lt]
    by (simp add: html_content_split)
qed

theorem gallery_document_structure_witness:
  "list_all is_data_uri [''data:image/png;base64,AlBORw=='', ''data:image/png;base64,A1BORw=='']
   \<and> occurrences gallery_open
         (html_content [''data:image/png;base64,AlBORw=='', ''data:image/png;base64,A1BORw==''])
       = 1
   \<and> occurrences ''<img''
         (html_content [''data:image/png;base64,AlBORw=='', ''data:image/png;base64,A1BORw==''])
       = 2
   \<and> img_srcs (gallery_inner [''data:image/png;base64,AlBORw=='',
                                ''data:image/png;base64,A1BORw==''])
       = [''data:image/png;base64,AlBORw=='', ''data:image/png;base64,A1BORw=='']"
proof -
  have h: "list_all is_data_uri
             [''data:image/png;base64,AlBORw=='', ''data:image/png;base64,A1BORw=='']"
    by (simp add: is_data_uri_def data_uri_prefix_def is_b64_char_def b64_alphabet_def)
  have l: "length [''data:image/png;base64,AlBORw=='', ''data:image/png;base64,A1BORw==''] = 2"
    by simp
  from gallery_document_structure [OF h, unfolded l] h show ?thesis
    by blast
qed

text \<open>
  C6. On the empty list \<^verbatim>\<open>create_html_page_with_images\<close> raises nothing of its own: an
  exception is the one the temporary-file facility raised, or the one raised by writing
  and closing the file it created. When the facility gives a name and the write reaches
  the file, the function leaves the document in that file and returns the name. The
  document is the header literal followed by the closing tags: the gallery element holds
  the white space that ends the literal and nothing else, and the document has no
  \<open>img\<close> tag.
\<close>

theorem create_html_page_empty:
  shows "(\<forall>e. fst (create_html_page_with_images ext [] w) = Inl e
            \<longrightarrow> named_temporary_file ext (files w) ''.html'' = Inl e
              \<or> (\<exists>path k. named_temporary_file ext (files w) ''.html'' = Inr path
                    \<and> write_and_close ext ((files w)(path \<mapsto> [])) path (html_content [])
                        = Some (e, k)))
       \<and> (\<forall>path. named_temporary_file ext (files w) ''.html'' = Inr path
              \<and> write_and_close ext ((files w)(path \<mapsto> [])) path (html_content []) = None
            \<longrightarrow> create_html_page_with_images ext [] w
                = (Inr path, w\<lparr>files := (files w)(path \<mapsto> html_content [])\<rparr>))
       \<and> html_content []
           = take 879 html_header @ gallery_open @ ''\<newline>    '' @ ''</div>'' @ ''</body></html>''
       \<and> html_content [] = html_header @ ''</div></body></html>''
       \<and> occurrences ''<img'' (html_content []) = 0
       \<and> img_srcs (html_content []) = []"
proof -
  have raised: "\<forall>e. fst (create_html_page_with_images ext [] w) = Inl e
            \<longrightarrow> named_temporary_file ext (files w) ''.html'' = Inl e
              \<or> (\<exists>path k. named_temporary_file ext (files w) ''.html'' = Inr path
                    \<and> write_and_close ext ((files w)(path \<mapsto> [])) path (html_content [])
                        = Some (e, k))"
    by (auto simp: create_html_page_with_images_def Let_def split: sum.splits option.splits)
  have returned: "\<forall>path. named_temporary_file ext (files w) ''.html'' = Inr path
              \<and> write_and_close ext ((files w)(path \<mapsto> [])) path (html_content []) = None
            \<longrightarrow> create_html_page_with_images ext [] w
                = (Inr path, w\<lparr>files := (files w)(path \<mapsto> html_content [])\<rparr>)"
    by (simp add: create_html_page_with_images_def Let_def)
  have split: "html_content []
        = take 879 html_header @ gallery_open @ ''\<newline>    '' @ ''</div>'' @ ''</body></html>''"
    using html_content_split [of "[]"] by (simp add: gallery_inner_def)
  have plain: "html_content [] = html_header @ ''</div></body></html>''"
    by (simp add: html_content_eq)
  have none: "occurrences ''<img'' (html_content []) = 0"
    using occurrences_img_html_content [of "[]"] by simp
  have srcs: "img_srcs (html_content []) = []"
    using img_srcs_html_content [of "[]"] by simp
  from raised returned split plain none srcs show ?thesis
    by (intro conjI)
qed

theorem create_html_page_empty_witness:
  "named_temporary_file stub_env (files (stub_world 0)) ''.html'' = Inr ''/tmp/tmpa.html''
   \<and> write_and_close stub_env [''/tmp/tmpa.html'' \<mapsto> []] ''/tmp/tmpa.html'' (html_content [])
       = None
   \<and> create_html_page_with_images stub_env [] (stub_world 0)
       = (Inr ''/tmp/tmpa.html'',
          (stub_world 0)\<lparr>files := [''/tmp/tmpa.html'' \<mapsto> html_content []]\<rparr>)
   \<and> fst (create_html_page_with_images full_disk_env [] (stub_world 0))
       = Inl (OSError ''No space left on device'')
   \<and> named_temporary_file full_disk_env (files (stub_world 0)) ''.html''
       = Inr ''/tmp/tmpa.html''
   \<and> write_and_close full_disk_env [''/tmp/tmpa.html'' \<mapsto> []] ''/tmp/tmpa.html''
        (html_content [])
       = Some (OSError ''No space left on device'', 0)
   \<and> occurrences ''<img'' (html_content []) = 0"
proof -
  have f: "files (stub_world 0) = Map.empty"
    by (simp add: stub_world_def)
  have h: "named_temporary_file stub_env (files (stub_world 0)) ''.html'' = Inr ''/tmp/tmpa.html''"
    by (simp add: stub_env_def stub_world_def)
  have wr: "write_and_close stub_env ((files (stub_world 0))(''/tmp/tmpa.html'' \<mapsto> []))
              ''/tmp/tmpa.html'' (html_content []) = None"
    by (simp add: stub_env_def)
  note t = create_html_page_empty [of stub_env "stub_world 0"]
  from t h wr have c: "create_html_page_with_images stub_env [] (stub_world 0)
       = (Inr ''/tmp/tmpa.html'',
          (stub_world 0)\<lparr>files := (files (stub_world 0))(''/tmp/tmpa.html'' \<mapsto> html_content [])\<rparr>)"
    by blast
  from t have o: "occurrences ''<img'' (html_content []) = 0"
    by blast
  have h': "named_temporary_file full_disk_env (files (stub_world 0)) ''.html''
            = Inr ''/tmp/tmpa.html''"
    by (simp add: full_disk_env_def stub_env_def stub_world_def)
  have wr': "write_and_close full_disk_env ((files (stub_world 0))(''/tmp/tmpa.html'' \<mapsto> []))
               ''/tmp/tmpa.html'' (html_content [])
             = Some (OSError ''No space left on device'', 0)"
    by (simp add: full_disk_env_def)
  have r: "fst (create_html_page_with_images full_disk_env [] (stub_world 0))
           = Inl (OSError ''No space left on device'')"
    using h' wr' by (simp add: create_html_page_with_images_def Let_def)
  from create_html_page_empty [of full_disk_env "stub_world 0"] r
  have "named_temporary_file full_disk_env (files (stub_world 0)) ''.html''
          = Inl (OSError ''No space left on device'')
        \<or> (\<exists>path k. named_temporary_file full_disk_env (files (stub_world 0)) ''.html'' = Inr path
              \<and> write_and_close full_disk_env ((files (stub_world 0))(path \<mapsto> [])) path
                   (html_content [])
                 = Some (OSError ''No space left on device'', k))"
    by blast
  with h wr [unfolded f] c [unfolded f] r h' wr' [unfolded f] o show ?thesis
    by blast
qed

text \<open>
  C7. Every string \<^verbatim>\<open>process_image\<close> returns is the 22 characters of the prefix
  followed by characters of the base64 alphabet and the padding character only. It has no
  double quote, no \<open><\<close> and no \<open>>\<close>, so the tag built from it has the one \<open><\<close>, the one
  \<open>>\<close> and the four double quotes of the template, and the \<open>src\<close> attribute read off the
  tag is the whole string.
\<close>

theorem process_image_plain:
  assumes "process_image ext prompt w = (Inr uri, w')"
  shows "take 22 uri = ''data:image/png;base64,''
       \<and> set (drop 22 uri)
           \<subseteq> set ''ABCDEFGHIJKLMNOPQRSTUVWXYZabcdefghijklmnopqrstuvwxyz0123456789+/=''
       \<and> CHR 0x22 \<notin> set uri \<and> CHR ''<'' \<notin> set uri \<and> CHR ''>'' \<notin> set uri
       \<and> img_srcs (img_tag uri @ rest) = uri # img_srcs rest
       \<and> count_list (img_tag uri) (CHR ''<'') = 1
       \<and> count_list (img_tag uri) (CHR ''>'') = 1
       \<and> count_list (img_tag uri) (CHR 0x22) = 4"
proof -
  from process_image_Inr [OF assms] obtain bs where
    u: "uri = data_uri_prefix @ b64encode bs" by blast
  then have d: "is_data_uri uri" by (simp add: is_data_uri_encoded)
  note plain = is_data_uri_plain [OF d]
  have dr: "drop 22 uri = b64encode bs" and tk: "take 22 uri = ''data:image/png;base64,''"
    unfolding u by (simp_all add: data_uri_prefix_def)
  have "\<forall>c \<in> set (b64encode bs). is_b64_char c"
    using b64encode_alphabet [of bs] by (simp add: list_all_iff)
  then have sub: "set (drop 22 uri)
             \<subseteq> set ''ABCDEFGHIJKLMNOPQRSTUVWXYZabcdefghijklmnopqrstuvwxyz0123456789+/=''"
    unfolding dr by (blast dest: is_b64_char_set)
  have srcs: "img_srcs (img_tag uri @ rest) = uri # img_srcs rest"
    using plain by (intro img_srcs_tag) simp_all
  have z: "count_list uri (CHR ''<'') = 0" "count_list uri (CHR ''>'') = 0"
    "count_list uri (CHR 0x22) = 0"
    using plain by (simp_all add: count_list_0_iff)
  have c1: "count_list (img_tag uri) (CHR ''<'') = 1"
    by (simp add: count_list_img_tag z)
  have c2: "count_list (img_tag uri) (CHR ''>'') = 1"
    by (simp add: count_list_img_tag z)
  have c3: "count_list (img_tag uri) (CHR 0x22) = 4"
    by (simp add: count_list_img_tag z)
  from tk sub plain srcs c1 c2 c3 show ?thesis by blast
qed

theorem process_image_plain_witness:
  "process_image stub_env ''Create candy land in a handy heaven.'' (stub_world 0)
     = (Inr ''data:image/png;base64,AFBORw=='', stub_world 1)
   \<and> CHR 0x22 \<notin> set ''data:image/png;base64,AFBORw==''
   \<and> img_srcs (img_tag ''data:image/png;base64,AFBORw=='' @ ''</div>'')
       = ''data:image/png;base64,AFBORw=='' # img_srcs ''</div>''
   \<and> count_list (img_tag ''data:image/png;base64,AFBORw=='') (CHR ''<'') = 1"
proof -
  have h: "process_image stub_env ''Create candy land in a handy heaven.'' (stub_world 0)
           = (Inr ''data:image/png;base64,AFBORw=='', stub_world 1)"
    by (rule stub_first)
  from process_image_plain [OF h, of "''</div>''"] h show ?thesis
    by simp
qed

text \<open>
  C9. For every path, \<^verbatim>\<open>display_in_browser\<close> makes one request to the browser: the URL
  starts with \<^verbatim>\<open>file://\<close> and the \<^verbatim>\<open>new\<close> argument is 2, which asks for a new tab.
  Whenever the library returns, with either boolean, the caller gets \<^verbatim>\<open>None\<close>; when the
  library raises, the caller gets that exception.
\<close>

theorem display_in_browser_new_tab:
  "opened (snd (display_in_browser ext p w)) = opened w @ [(''file://'' @ p, 2)]
   \<and> prefix ''file://'' (fst (last (opened (snd (display_in_browser ext p w)))))
   \<and> target_of_new (snd (last (opened (snd (display_in_browser ext p w))))) = Some NewTab
   \<and> (\<forall>b. browser_reply ext (''file://'' @ p) 2 = Inr b
         \<longrightarrow> display_in_browser ext p w
             = (Inr (), w\<lparr>opened := opened w @ [(''file://'' @ p, 2)]\<rparr>))
   \<and> (\<forall>e. browser_reply ext (''file://'' @ p) 2 = Inl e
         \<longrightarrow> display_in_browser ext p w
             = (Inl e, w\<lparr>opened := opened w @ [(''file://'' @ p, 2)]\<rparr>))"
  by (simp add: display_in_browser_def webbrowser_open_def target_of_new_def split: sum.splits)

theorem display_in_browser_new_tab_witness:
  "browser_reply stub_env ''file:///tmp/tmpa.html'' 2 = Inr True
   \<and> display_in_browser stub_env ''/tmp/tmpa.html'' (stub_world 0)
       = (Inr (), (stub_world 0)\<lparr>opened := [(''file:///tmp/tmpa.html'', 2)]\<rparr>)
   \<and> browser_reply (stub_env\<lparr>browser_reply := (\<lambda>url new. Inr False)\<rparr>)
        ''file:///tmp/tmpa.html'' 2 = Inr False
   \<and> display_in_browser (stub_env\<lparr>browser_reply := (\<lambda>url new. Inr False)\<rparr>) ''/tmp/tmpa.html''
        (stub_world 0)
       = (Inr (), (stub_world 0)\<lparr>opened := [(''file:///tmp/tmpa.html'', 2)]\<rparr>)
   \<and> browser_reply (stub_env\<lparr>browser_reply := (\<lambda>url new. Inl (OSError ''no display''))\<rparr>)
        ''file:///tmp/tmpa.html'' 2 = Inl (OSError ''no display'')
   \<and> display_in_browser (stub_env\<lparr>browser_reply := (\<lambda>url new. Inl (OSError ''no display''))\<rparr>)
        ''/tmp/tmpa.html'' (stub_world 0)
       = (Inl (OSError ''no display''), (stub_world 0)\<lparr>opened := [(''file:///tmp/tmpa.html'', 2)]\<rparr>)
   \<and> target_of_new 2 = Some NewTab"
proof -
  let ?p = "''/tmp/tmpa.html''"
  let ?no = "stub_env\<lparr>browser_reply := (\<lambda>url new. Inr False)\<rparr>"
  let ?ex = "stub_env\<lparr>browser_reply := (\<lambda>url new. Inl (OSError ''no display''))\<rparr>"
  have o: "opened (stub_world 0) = []" by (simp add: stub_world_def)
  have a: "browser_reply stub_env (''file://'' @ ?p) 2 = Inr True"
    by (simp add: stub_env_def)
  have b: "browser_reply ?no (''file://'' @ ?p) 2 = Inr False"
    by simp
  have c: "browser_reply ?ex (''file://'' @ ?p) 2 = Inl (OSError ''no display'')"
    by simp
  note t1 = display_in_browser_new_tab [of stub_env ?p "stub_world 0"]
  note t2 = display_in_browser_new_tab [of ?no ?p "stub_world 0"]
  note t3 = display_in_browser_new_tab [of ?ex ?p "stub_world 0"]
  from t1 a have r1: "display_in_browser stub_env ?p (stub_world 0)
       = (Inr (), (stub_world 0)\<lparr>opened := opened (stub_world 0) @ [(''file://'' @ ?p, 2)]\<rparr>)"
    by blast
  from t2 b have r2: "display_in_browser ?no ?p (stub_world 0)
       = (Inr (), (stub_world 0)\<lparr>opened := opened (stub_world 0) @ [(''file://'' @ ?p, 2)]\<rparr>)"
    by blast
  from t3 c have r3: "display_in_browser ?ex ?p (stub_world 0)
       = (Inl (OSError ''no display''),
          (stub_world 0)\<lparr>opened := opened (stub_world 0) @ [(''file://'' @ ?p, 2)]\<rparr>)"
    by blast
  have n: "target_of_new 2 = Some NewTab" by (simp add: target_of_new_def)
  from a b c r1 r2 r3 n show ?thesis
    by (simp add: o)
qed

text \<open>
  C10. The URL of the request is \<^verbatim>\<open>file://\<close> followed by the argument, character for
  character, for every string: nothing is encoded. The function checks nothing itself:
  an exception it raises is the one the library raised on that URL, and neither the
  request nor the result depends on the files that exist.
\<close>

theorem display_in_browser_verbatim:
  "fst (last (opened (snd (display_in_browser ext p w)))) = ''file://'' @ p
   \<and> length (opened (snd (display_in_browser ext p w))) = Suc (length (opened w))
   \<and> (\<forall>e. fst (display_in_browser ext p w) = Inl e
         \<longrightarrow> browser_reply ext (''file://'' @ p) 2 = Inl e)
   \<and> files (snd (display_in_browser ext p w)) = files w
   \<and> snd (display_in_browser ext p (w\<lparr>files := fs\<rparr>))
       = (snd (display_in_browser ext p w))\<lparr>files := fs\<rparr>
   \<and> fst (display_in_browser ext p (w\<lparr>files := fs\<rparr>)) = fst (display_in_browser ext p w)"
  by (auto simp: display_in_browser_world display_in_browser_result split: sum.splits)

theorem display_in_browser_verbatim_witness:
  "fst (last (opened (snd (display_in_browser stub_env ''my gallery#1?.html'' (stub_world 0)))))
     = ''file://my gallery#1?.html''
   \<and> files (stub_world 0) ''my gallery#1?.html'' = None
   \<and> fst (display_in_browser stub_env (''a'' @ [CHR 0x00] @ ''b.html'') (stub_world 0))
       = Inl (ValueError ''embedded null byte'')
   \<and> browser_reply stub_env (''file://'' @ ''a'' @ [CHR 0x00] @ ''b.html'') 2
       = Inl (ValueError ''embedded null byte'')
   \<and> fst (last (opened (snd (display_in_browser stub_env (''a'' @ [CHR 0x00] @ ''b.html'')
        (stub_world 0)))))
       = ''file://'' @ ''a'' @ [CHR 0x00] @ ''b.html''"
proof -
  let ?q = "''a'' @ [CHR 0x00] @ ''b.html''"
  have r: "fst (display_in_browser stub_env ?q (stub_world 0))
           = Inl (ValueError ''embedded null byte'')"
    by (simp add: display_in_browser_result stub_env_def)
  note t1 = display_in_browser_verbatim [of stub_env "''my gallery#1?.html''" "stub_world 0"]
  note t2 = display_in_browser_verbatim [of stub_env ?q "stub_world 0"]
  from t1 have u1: "fst (last (opened (snd (display_in_browser stub_env ''my gallery#1?.html''
                      (stub_world 0))))) = ''file://'' @ ''my gallery#1?.html''"
    by blast
  from t2 r have b: "browser_reply stub_env (''file://'' @ ?q) 2
                     = Inl (ValueError ''embedded null byte'')"
    by blast
  from t2 have u2: "fst (last (opened (snd (display_in_browser stub_env ?q (stub_world 0)))))
                    = ''file://'' @ ?q"
    by blast
  have f: "files (stub_world 0) ''my gallery#1?.html'' = None"
    by (simp add: stub_world_def)
  from u1 have u1': "fst (last (opened (snd (display_in_browser stub_env ''my gallery#1?.html''
                      (stub_world 0))))) = ''file://my gallery#1?.html''"
    by simp
  from u1' f r b u2 show ?thesis
    by (intro conjI)
qed

end
